theory Spec2Isabelle
  imports Main "HOL-Library.Word" "HOL-Library.Signed_Division"
begin

unbundle bit_operations_syntax

section \<open>Bytes, strings and panics\<close>

text \<open>
  A Go \<open>byte\<close> is an 8-bit word, a Go \<open>string\<close> an immutable sequence of bytes,
  modelled as an Isabelle \<open>string\<close> (a list of 8-bit characters). \<open>bytesOf\<close> is the
  conversion \<open>[]byte(s)\<close> and \<open>stringOf\<close> the conversion \<open>string(b)\<close>.
\<close>

type_synonym byte = "8 word"

definition bytesOf :: "string \<Rightarrow> byte list" where
  "bytesOf s = map of_char s"

definition stringOf :: "byte list \<Rightarrow> string" where
  "stringOf b = map (\<lambda>x. char_of (unat x)) b"

text \<open>
  Every \<open>panic\<close> of the source, and every panic of the run-time system or of the
  reflection library that the modelled code can reach, is a value of \<open>error\<close>.
\<close>

datatype error =
    InvalidObjectId
  | HostnameFailed
  | IndexOutOfRange
  | InvalidValue
  | UnexportedField
  | RawKind byte
  | CantMarshalDoc
  | CantMarshalElem
  | ObjectIdLength nat
  | UintTooLarge
  | UnsupportedFlag char
  | DuplicatedKey string

section \<open>ObjectId (gobson.go)\<close>

type_synonym ObjectId = string

text \<open>\<open>binary.BigEndian.PutUint32\<close> and \<open>binary.BigEndian.Uint32\<close>; both index
  \<open>b[0]\<close> to \<open>b[3]\<close> and panic on a shorter slice.\<close>

definition PutUint32 :: "byte list \<Rightarrow> 32 word \<Rightarrow> error + byte list" where
  "PutUint32 b v =
     (if length b < 4 then Inl IndexOutOfRange
      else Inr (b[0 := ucast (drop_bit 24 v), 1 := ucast (drop_bit 16 v),
                  2 := ucast (drop_bit 8 v), 3 := ucast v]))"

definition Uint32 :: "byte list \<Rightarrow> error + 32 word" where
  "Uint32 b =
     (if length b < 4 then Inl IndexOutOfRange
      else Inr (ucast (b ! 3) OR push_bit 8 (ucast (b ! 2)) OR push_bit 16 (ucast (b ! 1))
                OR push_bit 24 (ucast (b ! 0))))"

definition Uint16 :: "byte list \<Rightarrow> error + 16 word" where
  "Uint16 b =
     (if length b < 2 then Inl IndexOutOfRange
      else Inr (ucast (b ! 1) OR push_bit 8 (ucast (b ! 0))))"

text \<open>The built-in \<open>copy(dst, src)\<close>: the first \<open>min(len(dst), len(src))\<close> bytes of
  \<open>dst\<close> are overwritten.\<close>

definition copy :: "byte list \<Rightarrow> byte list \<Rightarrow> byte list" where
  "copy dst src = (let n = min (length dst) (length src) in take n src @ drop n dst)"

text \<open>
  The process-global state of the generator (\<open>objectIdCounter\<close>, \<open>machineId\<close>; a nil
  slice is \<open>None\<close>) and what one call reads from its environment: \<open>time.Seconds()\<close>,
  \<open>os.Hostname()\<close> (\<open>None\<close> when it returns an error) and \<open>os.Getpid()\<close>. The MD5
  digest is a parameter \<open>md5\<close> of the functions that use it.
\<close>

record idState =
  objectIdCounter :: "32 word"
  machineId :: "byte list option"

record host =
  seconds :: "64 word"
  hostname :: "string option"
  pid :: int

definition initialState :: idState where
  "initialState = \<lparr>objectIdCounter = 0, machineId = None\<rparr>"

definition initMachineId :: "(byte list \<Rightarrow> byte list) \<Rightarrow> host \<Rightarrow> idState \<Rightarrow> error + idState" where
  "initMachineId md5 h st =
     (case hostname h of
        None \<Rightarrow> Inl HostnameFailed
      | Some name \<Rightarrow> Inr (st\<lparr>machineId := Some (copy [0, 0, 0] (md5 (bytesOf name)))\<rparr>))"

definition NewObjectId ::
  "(byte list \<Rightarrow> byte list) \<Rightarrow> host \<Rightarrow> idState \<Rightarrow> error + (ObjectId \<times> idState)" where
  "NewObjectId md5 h st =
     (case PutUint32 (replicate 12 0) (ucast (seconds h)) of
        Inl e \<Rightarrow> Inl e
      | Inr b \<Rightarrow>
     (case (if machineId st = None then initMachineId md5 h st else Inr st) of
        Inl e \<Rightarrow> Inl e
      | Inr st1 \<Rightarrow>
     (case machineId st1 of
        None \<Rightarrow> Inl IndexOutOfRange
      | Some m \<Rightarrow>
          if length m < 3 then Inl IndexOutOfRange
          else
            let b = b[4 := m ! 0, 5 := m ! 1, 6 := m ! 2];
                b = b[7 := of_int (drop_bit 8 (pid h)), 8 := of_int (pid h)];
                i = objectIdCounter st1 + 1;
                st2 = st1\<lparr>objectIdCounter := i\<rparr>;
                b = b[9 := ucast (drop_bit 16 i), 10 := ucast (drop_bit 8 i), 11 := ucast i]
            in Inr (stringOf b, st2))))"

definition NewObjectIdSeconds :: "32 word \<Rightarrow> error + ObjectId" where
  "NewObjectIdSeconds sec =
     (let b = replicate 12 0 in
      case PutUint32 (take 4 b) sec of
        Inl e \<Rightarrow> Inl e
      | Inr b4 \<Rightarrow> Inr (stringOf (b4 @ drop 4 b)))"

definition Valid :: "ObjectId \<Rightarrow> bool" where
  "Valid oid = (length oid = 12)"

definition byteSlice :: "ObjectId \<Rightarrow> nat \<Rightarrow> nat \<Rightarrow> error + byte list" where
  "byteSlice oid start end' =
     (if length oid \<noteq> 12 then Inl InvalidObjectId
      else if end' < start \<or> length oid < end' then Inl IndexOutOfRange
      else Inr (bytesOf (take (end' - start) (drop start oid))))"

definition Timestamp :: "ObjectId \<Rightarrow> error + 32 word" where
  "Timestamp oid =
     (case byteSlice oid 0 4 of Inl e \<Rightarrow> Inl e | Inr b \<Rightarrow> Uint32 b)"

definition Machine :: "ObjectId \<Rightarrow> error + byte list" where
  "Machine oid = byteSlice oid 4 7"

definition Pid :: "ObjectId \<Rightarrow> error + 16 word" where
  "Pid oid =
     (case byteSlice oid 7 9 of Inl e \<Rightarrow> Inl e | Inr b \<Rightarrow> Uint16 b)"

definition Counter :: "ObjectId \<Rightarrow> error + 32 word" where
  "Counter oid =
     (case byteSlice oid 9 12 of
        Inl e \<Rightarrow> Inl e
      | Inr b \<Rightarrow>
          if length b < 3 then Inl IndexOutOfRange
          else Inr (push_bit 16 (ucast (b ! 0)) OR push_bit 8 (ucast (b ! 1)) OR ucast (b ! 2)))"

section \<open>The output buffer (encode.go)\<close>

text \<open>The encoder's only state is its buffer \<open>e.out\<close>; every operation takes the buffer
  and returns the new one.\<close>

definition addBytes :: "byte list \<Rightarrow> byte list \<Rightarrow> byte list" where
  "addBytes out v = out @ v"

definition addInt32 :: "byte list \<Rightarrow> 32 word \<Rightarrow> byte list" where
  "addInt32 out v =
     (let u = v in
      addBytes out [ucast u, ucast (drop_bit 8 u), ucast (drop_bit 16 u), ucast (drop_bit 24 u)])"

definition addInt64 :: "byte list \<Rightarrow> 64 word \<Rightarrow> byte list" where
  "addInt64 out v =
     (let u = v in
      addBytes out [ucast u, ucast (drop_bit 8 u), ucast (drop_bit 16 u), ucast (drop_bit 24 u),
        ucast (drop_bit 32 u), ucast (drop_bit 40 u), ucast (drop_bit 48 u),
        ucast (drop_bit 56 u)])"

definition reserveInt32 :: "byte list \<Rightarrow> nat \<times> byte list" where
  "reserveInt32 out = (let pos = length out in (pos, addBytes out [0, 0, 0, 0]))"

text \<open>\<open>setInt32\<close> shifts the signed \<open>int32\<close> arithmetically; an index past the end of
  the buffer is a run-time panic.\<close>

definition setInt32 :: "byte list \<Rightarrow> nat \<Rightarrow> 32 word \<Rightarrow> error + byte list" where
  "setInt32 out pos v =
     (if length out < pos + 4 then Inl IndexOutOfRange
      else Inr (out[pos + 0 := ucast v,
                    pos + 1 := ucast (signed_drop_bit 8 v),
                    pos + 2 := ucast (signed_drop_bit 16 v),
                    pos + 3 := ucast (signed_drop_bit 24 v)]))"

definition addCStr :: "byte list \<Rightarrow> string \<Rightarrow> byte list" where
  "addCStr out v = addBytes (addBytes out (bytesOf v)) [0]"

definition addStr :: "byte list \<Rightarrow> string \<Rightarrow> byte list" where
  "addStr out v = addCStr (addInt32 out (of_nat (length v + 1))) v"

definition addBinary :: "byte list \<Rightarrow> byte \<Rightarrow> byte list \<Rightarrow> byte list" where
  "addBinary out subtype v =
     (let out =
        (if subtype = 0x02 then
           let out = addInt32 out (of_nat (length v + 4));
               out = addBytes out [subtype]
           in addInt32 out (of_nat (length v))
         else
           let out = addInt32 out (of_nat (length v))
           in addBytes out [subtype])
      in addBytes out v)"

definition addElemName :: "byte list \<Rightarrow> byte \<Rightarrow> string \<Rightarrow> byte list" where
  "addElemName out kind name =
     (let out = addBytes out [kind];
          out = addBytes out (bytesOf name)
      in addBytes out [0])"

text \<open>The little-endian layout of the BSON wire format, written from the format's
  definition: byte \<open>k\<close> of the encoding holds bits \<open>8k\<close> to \<open>8k+7\<close> of the value.\<close>

definition le32 :: "32 word \<Rightarrow> byte list" where
  "le32 w = map (\<lambda>k. ucast (drop_bit (8 * k) w)) [0..<4]"

definition le64 :: "64 word \<Rightarrow> byte list" where
  "le64 w = map (\<lambda>k. ucast (drop_bit (8 * k) w)) [0..<8]"

definition be32 :: "32 word \<Rightarrow> byte list" where
  "be32 w = rev (le32 w)"

definition readLe32 :: "byte list \<Rightarrow> 32 word" where
  "readLe32 b =
     (ucast (b ! 0) OR push_bit 8 (ucast (b ! 1)) OR push_bit 16 (ucast (b ! 2))
      OR push_bit 24 (ucast (b ! 3)))"

section \<open>Values seen through reflection\<close>

text \<open>
  The encoder walks a \<open>reflect.Value\<close>. The reflection library is not part of the
  repository; what the encoder reads from a value is modelled by the datatype \<open>val\<close>
  below. \<open>kind\<close> is \<open>reflect.Kind\<close>, and \<open>kindNum\<close> gives the numeric order of the kinds
  that the encoder's comparisons \<open>Kind() <= reflect.Int32\<close> and
  \<open>Kind() <= reflect.Uint32\<close> use.
\<close>

datatype kind =
    KInvalid | KBool | KInt | KInt8 | KInt16 | KInt32 | KInt64
  | KUint | KUint8 | KUint16 | KUint32 | KUint64 | KUintptr
  | KFloat32 | KFloat64 | KComplex64 | KComplex128
  | KArray | KChan | KFunc | KInterface | KMap | KPtr | KSlice | KString | KStruct
  | KUnsafePointer

fun kindNum :: "kind \<Rightarrow> nat" where
  "kindNum KInvalid = 0" | "kindNum KBool = 1" | "kindNum KInt = 2" | "kindNum KInt8 = 3"
| "kindNum KInt16 = 4" | "kindNum KInt32 = 5" | "kindNum KInt64 = 6" | "kindNum KUint = 7"
| "kindNum KUint8 = 8" | "kindNum KUint16 = 9" | "kindNum KUint32 = 10"
| "kindNum KUint64 = 11" | "kindNum KUintptr = 12" | "kindNum KFloat32 = 13"
| "kindNum KFloat64 = 14" | "kindNum KComplex64 = 15" | "kindNum KComplex128 = 16"
| "kindNum KArray = 17" | "kindNum KChan = 18" | "kindNum KFunc = 19"
| "kindNum KInterface = 20" | "kindNum KMap = 21" | "kindNum KPtr = 22"
| "kindNum KSlice = 23" | "kindNum KString = 24" | "kindNum KStruct = 25"
| "kindNum KUnsafePointer = 26"

text \<open>
  The type of a value, as far as the encoder distinguishes types of one kind: the named
  string types \<open>ObjectId\<close> and \<open>Symbol\<close>, and the named \<open>int64\<close> types \<open>Timestamp\<close>,
  \<open>MongoTimestamp\<close> and \<open>orderKey\<close>. A slice that is not of type \<open>D\<close> or \<open>[]byte\<close> has
  element type \<open>DocElem\<close> or another one.
\<close>

datatype stringType = TString | TObjectId | TSymbol
datatype intType = TInt | TInt8 | TInt16 | TInt32 | TInt64 | TTimestamp | TMongoTimestamp | TOrderKey
datatype uintType = TUint | TUint8 | TUint16 | TUint32 | TUint64 | TUintptr
datatype floatType = TFloat32 | TFloat64
datatype elemType = ElemDocElem | ElemOther
datatype otherType = TComplex64 | TComplex128 | TChan | TFunc | TUnsafePointer

datatype structField = StructField (Name: string) (PkgPath: string) (Tag: string)

text \<open>
  A value:
  \<^item> \<open>VInvalid\<close> is the zero \<open>reflect.Value\<close> (\<open>reflect.ValueOf(nil)\<close>, the \<open>Elem()\<close> of
    a nil pointer or of a nil interface);
  \<^item> \<open>VGetter self r\<close> is a value \<open>self\<close> whose type implements \<open>Getter\<close> and whose
    \<open>GetBSON()\<close> returns \<open>r\<close>;
  \<^item> \<open>VInterface x\<close> and \<open>VPtr x\<close> are values of kind \<open>Interface\<close> and \<open>Ptr\<close> with
    \<open>Elem()\<close> equal to \<open>x\<close>;
  \<^item> \<open>VFloat t bits\<close> carries \<open>math.Float64bits(v.Float())\<close>, \<open>VInt\<close> and \<open>VUint\<close> carry
    \<open>v.Int()\<close> and \<open>v.Uint()\<close>, both 64 bits wide for every kind;
  \<^item> \<open>VMap\<close> lists the entries of a map in the order of \<open>v.MapKeys()\<close>, each key as
    \<open>k.String()\<close>;
  \<^item> \<open>VD\<close> is a slice of type \<open>D\<close>, \<open>VBytes\<close> one of type \<open>[]byte\<close>, \<open>VSlice\<close> any other
    slice whose elements are not of kind \<open>Uint8\<close>; \<open>VByteArray\<close> is an array of bytes,
    \<open>VArray\<close> any other array (a named type of bytes, on which the type assertion
    \<open>v.Interface().([]byte)\<close> fails, is not modelled);
  \<^item> \<open>VStruct\<close> lists all fields of a struct in declaration order, each with its
    declaration (name, package path: empty when the field is exported, and tag);
    \<open>VRaw\<close>, \<open>VBinary\<close>, \<open>VRegEx\<close>, \<open>VJS\<close> and \<open>VUndefined\<close> are the struct types that
    the encoder knows by type (the \<open>Scope\<close> of a \<open>JS\<close> is \<open>VInvalid\<close> when it is nil);
  \<^item> \<open>VOther\<close> is a value of any remaining kind.
\<close>

datatype val =
    VInvalid
  | VGetter val val
  | VInterface val
  | VPtr val
  | VString stringType string
  | VFloat floatType "64 word"
  | VUint uintType "64 word"
  | VInt intType "64 word"
  | VBool bool
  | VMap "(string \<times> val) list"
  | VD "(string \<times> val) list"
  | VSlice elemType "val list"
  | VBytes "byte list"
  | VArray "val list"
  | VByteArray "byte list"
  | VStruct "(structField \<times> val) list"
  | VRaw byte "byte list"
  | VBinary byte "byte list"
  | VRegEx string string
  | VJS string val
  | VUndefined
  | VOther otherType

text \<open>A weight of values, the measure of the encoder's recursion: every value weighs
  more than the values the encoder reads from it.\<close>

fun wt :: "val \<Rightarrow> nat" where
  "wt VInvalid = 1"
| "wt (VGetter self r) = 1 + wt self + wt r"
| "wt (VInterface x) = 1 + wt x"
| "wt (VPtr x) = 1 + wt x"
| "wt (VString t s) = 1"
| "wt (VFloat t w) = 1"
| "wt (VUint t w) = 1"
| "wt (VInt t w) = 1"
| "wt (VBool b) = 1"
| "wt (VMap kvs) = 1 + sum_list (map (\<lambda>kv. wt (snd kv) + 1) kvs)"
| "wt (VD kvs) = 1 + sum_list (map (\<lambda>kv. wt (snd kv) + 1) kvs)"
| "wt (VSlice t vs) = 1 + sum_list (map (\<lambda>v. wt v + 1) vs)"
| "wt (VBytes bs) = 1 + 2 * length bs"
| "wt (VArray vs) = 1 + sum_list (map (\<lambda>v. wt v + 1) vs)"
| "wt (VByteArray bs) = 1 + 2 * length bs"
| "wt (VStruct fs) = 1 + sum_list (map (\<lambda>kv. wt (snd kv) + 1) fs)"
| "wt (VRaw k d) = 5 + 2 * length d"
| "wt (VBinary k d) = 5 + 2 * length d"
| "wt (VRegEx p opts) = 5"
| "wt (VJS c s) = 5 + wt s"
| "wt VUndefined = 1"
| "wt (VOther t) = 1"


fun intKind :: "intType \<Rightarrow> kind" where
  "intKind TInt = KInt" | "intKind TInt8 = KInt8" | "intKind TInt16 = KInt16"
| "intKind TInt32 = KInt32" | "intKind TInt64 = KInt64" | "intKind TTimestamp = KInt64"
| "intKind TMongoTimestamp = KInt64" | "intKind TOrderKey = KInt64"

fun uintKind :: "uintType \<Rightarrow> kind" where
  "uintKind TUint = KUint" | "uintKind TUint8 = KUint8" | "uintKind TUint16 = KUint16"
| "uintKind TUint32 = KUint32" | "uintKind TUint64 = KUint64" | "uintKind TUintptr = KUintptr"

fun floatKind :: "floatType \<Rightarrow> kind" where
  "floatKind TFloat32 = KFloat32" | "floatKind TFloat64 = KFloat64"

fun otherKind :: "otherType \<Rightarrow> kind" where
  "otherKind TComplex64 = KComplex64" | "otherKind TComplex128 = KComplex128"
| "otherKind TChan = KChan" | "otherKind TFunc = KFunc"
| "otherKind TUnsafePointer = KUnsafePointer"

fun Kind :: "val \<Rightarrow> kind" where
  "Kind VInvalid = KInvalid"
| "Kind (VGetter self r) = Kind self"
| "Kind (VInterface x) = KInterface"
| "Kind (VPtr x) = KPtr"
| "Kind (VString t s) = KString"
| "Kind (VFloat t w) = floatKind t"
| "Kind (VUint t w) = uintKind t"
| "Kind (VInt t w) = intKind t"
| "Kind (VBool b) = KBool"
| "Kind (VMap kvs) = KMap"
| "Kind (VD kvs) = KSlice"
| "Kind (VSlice t vs) = KSlice"
| "Kind (VBytes bs) = KSlice"
| "Kind (VArray vs) = KArray"
| "Kind (VByteArray bs) = KArray"
| "Kind (VStruct fs) = KStruct"
| "Kind (VRaw k d) = KStruct"
| "Kind (VBinary k d) = KStruct"
| "Kind (VRegEx p opts) = KStruct"
| "Kind (VJS c s) = KStruct"
| "Kind VUndefined = KStruct"
| "Kind (VOther t) = otherKind t"

definition wtl :: "val list \<Rightarrow> nat" where
  "wtl vs = sum_list (map (\<lambda>v. wt v + 1) vs)"

text \<open>The fields that \<open>v.Field(i)\<close> reads from the struct types declared in gobson.go,
  and the elements that \<open>v.Index(i)\<close> reads from a slice or an array.\<close>

definition exported :: "string \<Rightarrow> structField" where
  "exported name = StructField name [] []"

fun fieldsOf :: "val \<Rightarrow> (structField \<times> val) list" where
  "fieldsOf (VStruct fs) = fs"
| "fieldsOf (VRaw k d) = [(exported ''Kind'', VUint TUint8 (ucast k)), (exported ''Data'', VBytes d)]"
| "fieldsOf (VBinary k d) = [(exported ''Kind'', VUint TUint8 (ucast k)), (exported ''Data'', VBytes d)]"
| "fieldsOf (VRegEx p opts) =
     [(exported ''Pattern'', VString TString p), (exported ''Options'', VString TString opts)]"
| "fieldsOf (VJS c s) = [(exported ''Code'', VString TString c), (exported ''Scope'', VInterface s)]"
| "fieldsOf v = []"

fun elemsOf :: "val \<Rightarrow> val list" where
  "elemsOf (VSlice t vs) = vs"
| "elemsOf (VArray vs) = vs"
| "elemsOf (VBytes bs) = map (\<lambda>b. VUint TUint8 (ucast b)) bs"
| "elemsOf (VByteArray bs) = map (\<lambda>b. VUint TUint8 (ucast b)) bs"
| "elemsOf v = []"

fun isZero :: "val \<Rightarrow> bool" where
  "isZero (VString t s) = (length s = 0)"
| "isZero (VPtr x) = (x = VInvalid)"
| "isZero (VInterface x) = (x = VInvalid)"
| "isZero (VSlice t vs) = (length vs = 0)"
| "isZero (VD kvs) = (length kvs = 0)"
| "isZero (VBytes bs) = (length bs = 0)"
| "isZero (VMap kvs) = (length kvs = 0)"
| "isZero (VInt t i) = (i = 0)"
| "isZero (VUint t u) = (u = 0)"
| "isZero (VBool b) = (\<not> b)"
| "isZero (VGetter self r) = isZero self"
| "isZero v = False"

section \<open>The field schema of a struct type (gobson.go)\<close>

text \<open>
  \<open>getStructFields\<close> is modelled on a cache miss: the cache \<open>fieldMap\<close> stores what the
  derivation returns for a type and returns it again on a hit. \<open>strings.LastIndex\<close> is
  used with the separator \<open>"/"\<close> only, so the separator is one character here;
  \<open>strings.ToLower\<close> is modelled on ASCII letters. \<open>FMap\<close> and \<open>FList\<close> are the fields
  \<open>Map\<close> and \<open>List\<close> of \<open>structFields\<close>.
\<close>

record fieldInfo =
  Key :: string
  Num :: nat
  Conditional :: bool
  Short :: bool

record structFields =
  FMap :: "string \<rightharpoonup> fieldInfo"
  FList :: "fieldInfo list"

fun LastIndex :: "string \<Rightarrow> char \<Rightarrow> nat option" where
  "LastIndex [] c = None"
| "LastIndex (x # xs) c =
     (case LastIndex xs c of
        Some i \<Rightarrow> Some (Suc i)
      | None \<Rightarrow> if x = c then Some 0 else None)"

definition ToLower :: "string \<Rightarrow> string" where
  "ToLower s =
     map (\<lambda>c. let n = (of_char c :: nat) in if 65 \<le> n \<and> n \<le> 90 then char_of (n + 32) else c) s"

fun flagsLoop :: "string \<Rightarrow> fieldInfo \<Rightarrow> error + fieldInfo" where
  "flagsLoop [] info = Inr info"
| "flagsLoop (c # cs) info =
     (if c = CHR ''c'' then flagsLoop cs (info\<lparr>Conditional := True\<rparr>)
      else if c = CHR ''s'' then flagsLoop cs (info\<lparr>Short := True\<rparr>)
      else Inl (UnsupportedFlag c))"

fun fieldsLoop ::
  "structField list \<Rightarrow> nat \<Rightarrow> (string \<rightharpoonup> fieldInfo) \<Rightarrow> fieldInfo list \<Rightarrow> error + structFields" where
  "fieldsLoop [] i fieldsMap fieldsList = Inr \<lparr>FMap = fieldsMap, FList = fieldsList\<rparr>"
| "fieldsLoop (field # rest) i fieldsMap fieldsList =
     (if PkgPath field \<noteq> [] then fieldsLoop rest (i + 1) fieldsMap fieldsList
      else
        let info = \<lparr>Key = [], Num = i, Conditional = False, Short = False\<rparr> in
        case (case LastIndex (Tag field) CHR ''/'' of
                None \<Rightarrow> Inr (info, Tag field)
              | Some s \<Rightarrow>
                  (case flagsLoop (drop (s + 1) (Tag field)) info of
                     Inl e \<Rightarrow> Inl e
                   | Inr info \<Rightarrow> Inr (info, take s (Tag field)))) of
          Inl e \<Rightarrow> Inl e
        | Inr (info, tag) \<Rightarrow>
            let info = (if tag \<noteq> [] then info\<lparr>Key := tag\<rparr>
                        else info\<lparr>Key := ToLower (Name field)\<rparr>) in
            if fieldsMap (Key info) \<noteq> None then Inl (DuplicatedKey (Key info))
            else fieldsLoop rest (i + 1) (fieldsMap(Key info \<mapsto> info)) (fieldsList @ [info]))"

definition getStructFields :: "structField list \<Rightarrow> error + structFields" where
  "getStructFields st = fieldsLoop st 0 Map.empty []"

section \<open>The encoder (encode.go)\<close>

text \<open>\<open>strconv.Itoa\<close> on the indices of a slice, which are not negative.\<close>

function Itoa :: "nat \<Rightarrow> string" where
  "Itoa n = (if n < 10 then [char_of (48 + n)] else Itoa (n div 10) @ [char_of (48 + n mod 10)])"
  by pat_completeness auto
termination
  by (relation "measure (\<lambda>n. n)") auto

definition itoaCacheSize :: nat where
  "itoaCacheSize = 32"

definition itoaCache :: "string list" where
  "itoaCache = map Itoa [0..<itoaCacheSize]"

definition itoa :: "nat \<Rightarrow> string" where
  "itoa i = (if i < itoaCacheSize then itoaCache ! i else Itoa i)"


definition MaxKey :: "64 word" where
  "MaxKey = push_bit 63 1 - 1"

definition MinKey :: "64 word" where
  "MinKey = push_bit 63 (- 1)"

definition MinInt32 :: int where
  "MinInt32 = - (2 ^ 31)"

definition MaxInt32 :: int where
  "MaxInt32 = 2 ^ 31 - 1"

text \<open>
  The encoder. The loop at the head of \<open>addDoc\<close> is its equations for a \<open>Getter\<close>, for a
  pointer and for an interface that holds a \<open>Getter\<close> (\<open>v.Interface()\<close> of a value of kind
  \<open>Interface\<close> is the value it holds; such a value is the target of a pointer). The loop
  of \<open>addStruct\<close> pairs the \<open>i\<close>-th entry of \<open>fields.List\<close> with \<open>v.Field(i)\<close>, the
  \<open>i\<close>-th field of the struct: \<open>addStructLoop\<close> walks both lists in step. \<open>addElem\<close>
  calls \<open>v.Interface()\<close> on its argument, which panics on a value read from an
  unexported field; \<open>isZero\<close> reads such a value without a panic.
  \<open>v.Interface()\<close> on the zero Value panics in \<open>addDoc\<close>.
\<close>

function (sequential)
    addDoc :: "byte list \<Rightarrow> val \<Rightarrow> error + byte list"
and addMap :: "byte list \<Rightarrow> val \<Rightarrow> error + byte list"
and addMapLoop :: "byte list \<Rightarrow> (string \<times> val) list \<Rightarrow> error + byte list"
and addStruct :: "byte list \<Rightarrow> val \<Rightarrow> error + byte list"
and addStructLoop ::
      "byte list \<Rightarrow> fieldInfo list \<Rightarrow> (structField \<times> val) list \<Rightarrow> error + byte list"
and addSlice :: "byte list \<Rightarrow> val \<Rightarrow> error + byte list"
and addSliceD :: "byte list \<Rightarrow> (string \<times> val) list \<Rightarrow> error + byte list"
and addSliceLoop :: "byte list \<Rightarrow> nat \<Rightarrow> val list \<Rightarrow> error + byte list"
and addElem :: "byte list \<Rightarrow> string \<Rightarrow> val \<Rightarrow> bool \<Rightarrow> error + byte list"
where
  "addDoc out VInvalid = Inl InvalidValue"
| "addDoc out (VGetter self r) = addDoc out r"
| "addDoc out (VPtr x) = addDoc out x"
| "addDoc out (VInterface (VGetter self r)) = addDoc out r"
| "addDoc out (VRaw k d) =
     (if k \<noteq> 0x03 \<and> k \<noteq> 0x00 then Inl (RawKind k) else Inr (addBytes out d))"
| "addDoc out v =
     (case reserveInt32 out of (start, out) \<Rightarrow>
      case (case Kind v of
              KMap \<Rightarrow> addMap out v
            | KStruct \<Rightarrow> addStruct out v
            | KArray \<Rightarrow> addSlice out v
            | KSlice \<Rightarrow> addSlice out v
            | _ \<Rightarrow> Inl CantMarshalDoc) of
        Inl e \<Rightarrow> Inl e
      | Inr out \<Rightarrow>
          let out = addBytes out [0]
          in setInt32 out start (of_int (int (length out) - int start)))"

| "addMap out (VMap kvs) = addMapLoop out kvs"
| "addMap out v = Inl InvalidValue"

| "addMapLoop out [] = Inr out"
| "addMapLoop out ((k, v) # rest) =
     (case addElem out k v False of
        Inl e \<Rightarrow> Inl e
      | Inr out \<Rightarrow> addMapLoop out rest)"

| "addStruct out v =
     (case getStructFields (map fst (fieldsOf v)) of
        Inl err \<Rightarrow> Inl err
      | Inr flds \<Rightarrow> addStructLoop out (FList flds) (fieldsOf v))"

| "addStructLoop out [] fs = Inr out"
| "addStructLoop out (info # infos) [] = Inl IndexOutOfRange"
| "addStructLoop out (info # infos) ((f, value) # fs) =
     (if Conditional info \<and> isZero value then addStructLoop out infos fs
      else if PkgPath f \<noteq> [] then Inl UnexportedField
      else
        case addElem out (Key info) value (Short info) of
          Inl e \<Rightarrow> Inl e
        | Inr out \<Rightarrow> addStructLoop out infos fs)"

| "addSlice out (VD d) = addSliceD out d"
| "addSlice out v = addSliceLoop out 0 (elemsOf v)"

| "addSliceD out [] = Inr out"
| "addSliceD out ((name, v) # rest) =
     (case addElem out name v False of
        Inl e \<Rightarrow> Inl e
      | Inr out \<Rightarrow> addSliceD out rest)"

| "addSliceLoop out i [] = Inr out"
| "addSliceLoop out i (x # xs) =
     (case addElem out (itoa i) x False of
        Inl e \<Rightarrow> Inl e
      | Inr out \<Rightarrow> addSliceLoop out (i + 1) xs)"

| "addElem out name VInvalid short = Inr (addElemName out 0x0A name)"
| "addElem out name (VGetter self r) short = addElem out name r short"
| "addElem out name (VInterface x) short = addElem out name x short"
| "addElem out name (VPtr x) short = addElem out name x short"
| "addElem out name (VString t s) short =
     (case t of
        TObjectId \<Rightarrow>
          if length s \<noteq> 12 then Inl (ObjectIdLength (length s))
          else Inr (addBytes (addElemName out 0x07 name) (bytesOf s))
      | TSymbol \<Rightarrow> Inr (addStr (addElemName out 0x0E name) s)
      | TString \<Rightarrow> Inr (addStr (addElemName out 0x02 name) s))"
| "addElem out name (VFloat t bits) short = Inr (addInt64 (addElemName out 0x01 name) bits)"
| "addElem out name (VUint t u) short =
     (if sint u < 0 then Inl UintTooLarge
      else if uint u \<le> MaxInt32 \<and> (short \<or> kindNum (uintKind t) \<le> kindNum KUint32) then
        Inr (addInt32 (addElemName out 0x10 name) (ucast u))
      else Inr (addInt64 (addElemName out 0x12 name) u))"
| "addElem out name (VInt t i) short =
     (if kindNum (intKind t) \<le> kindNum KInt32 then
        Inr (addInt32 (addElemName out 0x10 name) (ucast i))
      else
        case t of
          TTimestamp \<Rightarrow>
            Inr (addInt64 (addElemName out 0x09 name) (word_of_int (sint i sdiv 1000000)))
        | TMongoTimestamp \<Rightarrow> Inr (addInt64 (addElemName out 0x11 name) i)
        | TOrderKey \<Rightarrow>
            if i = MaxKey then Inr (addElemName out 0x7F name)
            else Inr (addElemName out 0xFF name)
        | _ \<Rightarrow>
            if short \<and> MinInt32 \<le> sint i \<and> sint i \<le> MaxInt32 then
              Inr (addInt32 (addElemName out 0x10 name) (ucast i))
            else Inr (addInt64 (addElemName out 0x12 name) i))"
| "addElem out name (VBool b) short =
     (let out = addElemName out 0x08 name
      in if b then Inr (addBytes out [1]) else Inr (addBytes out [0]))"
| "addElem out name (VMap kvs) short = addDoc (addElemName out 0x03 name) (VMap kvs)"
| "addElem out name (VBytes bs) short = Inr (addBinary (addElemName out 0x05 name) 0x00 bs)"
| "addElem out name (VD d) short = addDoc (addElemName out 0x03 name) (VD d)"
| "addElem out name (VSlice et vs) short =
     (if et = ElemDocElem then addDoc (addElemName out 0x03 name) (VSlice et vs)
      else addDoc (addElemName out 0x04 name) (VSlice et vs))"
| "addElem out name (VByteArray bs) short = Inr (addBinary (addElemName out 0x05 name) 0x00 bs)"
| "addElem out name (VArray vs) short = addDoc (addElemName out 0x04 name) (VArray vs)"
| "addElem out name (VRaw k d) short =
     (let kind = (if k = 0x00 then 0x03 else k)
      in Inr (addBytes (addElemName out kind name) d))"
| "addElem out name (VBinary k d) short = Inr (addBinary (addElemName out 0x05 name) k d)"
| "addElem out name (VRegEx p opts) short =
     Inr (addCStr (addCStr (addElemName out 0x0B name) p) opts)"
| "addElem out name (VJS c scope) short =
     (if scope = VInvalid then Inr (addStr (addElemName out 0x0D name) c)
      else
        case reserveInt32 (addElemName out 0x0F name) of (start, out) \<Rightarrow>
        case addDoc (addStr out c) scope of
          Inl e \<Rightarrow> Inl e
        | Inr out \<Rightarrow> setInt32 out start (of_int (int (length out) - int start)))"
| "addElem out name VUndefined short = Inr (addElemName out 0x06 name)"
| "addElem out name (VStruct fs) short = addDoc (addElemName out 0x03 name) (VStruct fs)"
| "addElem out name (VOther t) short = Inl CantMarshalElem"
  by pat_completeness auto

termination
proof -
  have F: "wtl (map snd (fieldsOf v)) < wt v" for v
    by (cases v) (simp_all add: wtl_def exported_def o_def)
  have E: "wtl (elemsOf v) < wt v" for v
    by (cases v) (simp_all add: wtl_def o_def sum_list_triv)
  have E': "4 * wtl (elemsOf v) < Suc (4 * wt v)" for v
    using E [of v] by simp
  have F': "4 * (\<Sum>x\<leftarrow>fieldsOf v. Suc (wt (snd x))) < Suc (4 * wt v)" for v
    using F [of v] by (simp add: wtl_def o_def)
  show ?thesis
    by (relation "measure (\<lambda>x. case x of
        Inl (Inl (Inl (out, v))) \<Rightarrow> 4 * wt v + 2
      | Inl (Inl (Inr (out, v))) \<Rightarrow> 4 * wt v + 1
      | Inl (Inr (Inl (out, kvs))) \<Rightarrow> 4 * wtl (map snd kvs)
      | Inl (Inr (Inr (out, v))) \<Rightarrow> 4 * wt v + 1
      | Inr (Inl (Inl (out, infos, fs))) \<Rightarrow> 4 * wtl (map snd fs)
      | Inr (Inl (Inr (out, v))) \<Rightarrow> 4 * wt v + 1
      | Inr (Inr (Inl (out, kvs))) \<Rightarrow> 4 * wtl (map snd kvs)
      | Inr (Inr (Inr (Inl (out, i, vs)))) \<Rightarrow> 4 * wtl vs
      | Inr (Inr (Inr (Inr (out, name, v, short)))) \<Rightarrow> 4 * wt v + 3)")
      (simp_all add: wtl_def o_def sum_list_triv E' [unfolded wtl_def] F')
qed

text \<open>
  \<open>handleErr\<close> turns a recovered panic into the error that \<open>Marshal\<close> returns when the
  panic value is a string or an \<open>os.Error\<close>, and panics again otherwise.
\<close>

datatype panicValue = PanicString | PanicOsError | PanicRuntimeError

fun panicValueOf :: "error \<Rightarrow> panicValue" where
  "panicValueOf IndexOutOfRange = PanicRuntimeError"
| "panicValueOf InvalidValue = PanicOsError"
| "panicValueOf (DuplicatedKey k) = PanicOsError"
| "panicValueOf e = PanicString"

datatype result = Returned "byte list" | Failed error | Panicked error

definition handleErr :: "error \<Rightarrow> result" where
  "handleErr r =
     (case panicValueOf r of
        PanicRuntimeError \<Rightarrow> Panicked r
      | PanicString \<Rightarrow> Failed r
      | PanicOsError \<Rightarrow> Failed r)"

definition Marshal :: "val \<Rightarrow> result" where
  "Marshal v =
     (case addDoc [] v of
        Inl r \<Rightarrow> handleErr r
      | Inr out \<Rightarrow> Returned out)"

section \<open>Notions used by the properties\<close>

text \<open>The value that \<open>addDoc\<close> dispatches on: what the loop at its head leaves, after every
  \<open>Getter\<close> is replaced by its \<open>GetBSON()\<close> and every pointer by its target.\<close>

fun indirect :: "val \<Rightarrow> val" where
  "indirect (VGetter self r) = indirect r"
| "indirect (VPtr x) = indirect x"
| "indirect (VInterface (VGetter self r)) = indirect r"
| "indirect v = v"

text \<open>The kinds that the \<open>switch\<close> of \<open>addDoc\<close> accepts.\<close>

definition documentKind :: "kind \<Rightarrow> bool" where
  "documentKind k = (k = KMap \<or> k = KStruct \<or> k = KArray \<or> k = KSlice)"


fun isRaw :: "val \<Rightarrow> bool" where
  "isRaw (VRaw k d) = True"
| "isRaw v = False"

text \<open>An \<open>int64\<close> that lies in the range of \<open>int32\<close>.\<close>

definition fitsInt32 :: "64 word \<Rightarrow> bool" where
  "fitsInt32 i = (MinInt32 \<le> sint i \<and> sint i \<le> MaxInt32)"

section \<open>Properties of the ObjectId functions\<close>

lemma bytesOf_stringOf: "bytesOf (stringOf b) = b"
proof -
  have "(of_char (char_of (unat x)) :: byte) = x" for x :: byte
  proof -
    have "(of_char (char_of (unat x)) :: byte) = of_nat (of_char (char_of (unat x)))"
      by (simp only: of_nat_of_char)
    also have "\<dots> = of_nat (unat x mod 256)" by simp
    also have "\<dots> = x"
      using unsigned_less [of x, where ?'a = nat] by simp
    finally show ?thesis .
  qed
  then show ?thesis by (simp add: bytesOf_def stringOf_def map_idI)
qed

lemma length_stringOf: "length (stringOf b) = length b"
  by (simp add: stringOf_def)

lemma be32_bytes:
  "be32 w = [ucast (drop_bit 24 w), ucast (drop_bit 16 w), ucast (drop_bit 8 w), ucast w]"
  by (simp add: be32_def le32_def upt_rec numeral_eq_Suc)

lemma PutUint32_zero4: "PutUint32 [0, 0, 0, 0] v = Inr (be32 v)"
  by (simp add: PutUint32_def be32_bytes numeral_eq_Suc)

lemma Uint32_be32: "Uint32 (be32 v) = Inr v"
proof -
  have "ucast (ucast v :: byte) OR push_bit 8 (ucast (ucast (drop_bit 8 v) :: byte))
      OR push_bit 16 (ucast (ucast (drop_bit 16 v) :: byte))
      OR push_bit 24 (ucast (ucast (drop_bit 24 v) :: byte)) = v"
  proof (rule bit_word_eqI)
    fix n assume "n < LENGTH(32)"
    then show "bit (ucast (ucast v :: byte) OR push_bit 8 (ucast (ucast (drop_bit 8 v) :: byte))
        OR push_bit 16 (ucast (ucast (drop_bit 16 v) :: byte))
        OR push_bit 24 (ucast (ucast (drop_bit 24 v) :: byte)) :: 32 word) n = bit v n"
      by (cases "n < 8"; cases "n < 16"; cases "n < 24"; auto simp add: bit_simps)
  qed
  then show ?thesis by (simp add: Uint32_def be32_bytes numeral_eq_Suc)
qed

lemma NewObjectIdSeconds_eq:
  "NewObjectIdSeconds s = Inr (stringOf (be32 s @ replicate 8 0))"
proof -
  have "take 4 (replicate 12 (0::byte)) = [0, 0, 0, 0]"
    by (simp add: numeral_eq_Suc)
  then show ?thesis
    by (simp add: NewObjectIdSeconds_def PutUint32_zero4)
qed

text \<open>
  C8. For every \<open>int32\<close> value \<open>s\<close>, \<open>NewObjectIdSeconds(s)\<close> is an ObjectId of 12 bytes
  whose first four bytes hold \<open>s\<close> big-endian and whose bytes 4 to 11 are all zero, and
  \<open>Timestamp()\<close> of that ObjectId returns \<open>s\<close>.
\<close>

theorem C8_NewObjectIdSeconds_Timestamp:
  "\<exists>oid. NewObjectIdSeconds s = Inr oid \<and> length oid = 12 \<and> Valid oid
      \<and> bytesOf (take 4 oid) = be32 s
      \<and> bytesOf (drop 4 oid) = replicate 8 0
      \<and> Timestamp oid = Inr s"
proof -
  let ?oid = "stringOf (be32 s @ replicate 8 0)"
  have len: "length ?oid = 12"
    by (simp add: length_stringOf be32_bytes)
  have tk: "take 4 ?oid = stringOf (be32 s)"
    by (simp add: stringOf_def be32_bytes)
  have dr: "drop 4 ?oid = stringOf (replicate 8 0)"
    by (simp add: stringOf_def be32_bytes)
  have "byteSlice ?oid 0 4 = Inr (be32 s)"
    using len by (simp add: byteSlice_def tk bytesOf_stringOf)
  then have "Timestamp ?oid = Inr s"
    by (simp add: Timestamp_def Uint32_be32)
  with len tk dr show ?thesis
    by (simp add: NewObjectIdSeconds_eq Valid_def bytesOf_stringOf)
qed

lemma counter_bits:
  "push_bit 16 (ucast (ucast (drop_bit 16 i) :: byte)) OR push_bit 8 (ucast (ucast (drop_bit 8 i) :: byte))
     OR ucast (ucast i :: byte) = take_bit 24 (i :: 32 word)"
proof (rule bit_word_eqI)
  fix n assume "n < LENGTH(32)"
  then show "bit (push_bit 16 (ucast (ucast (drop_bit 16 i) :: byte))
      OR push_bit 8 (ucast (ucast (drop_bit 8 i) :: byte))
      OR ucast (ucast i :: byte) :: 32 word) n = bit (take_bit 24 i) n"
    by (cases "n < 8"; cases "n < 16"; cases "n < 24"; auto simp add: bit_simps)
qed

lemma drop9_update:
  "length b = 12 \<Longrightarrow> take 3 (drop 9 (b[9 := x, 10 := y, 11 := z])) = [x, y, z]"
  by (rule nth_equalityI) (auto simp add: nth_list_update less_Suc_eq numeral_3_eq_3)

lemma drop9_update':
  "length b = 12 \<Longrightarrow> drop 9 (b[9 := x, 10 := y, 11 := z]) = [x, y, z]"
  using drop9_update [of b x y z] by simp

lemma bytesOf_drop_stringOf: "bytesOf (drop k (stringOf b)) = drop k b"
  by (metis bytesOf_stringOf stringOf_def drop_map)

lemma map_take_drop_stringOf:
  "bytesOf (take n (drop k (stringOf b))) = take n (drop k b)"
  by (metis bytesOf_stringOf stringOf_def take_map drop_map)

lemma sint_take_bit_24: "sint (take_bit 24 (i :: 32 word)) = uint i mod 2 ^ 24"
proof -
  have "uint (take_bit 24 i) = take_bit 24 (uint i)"
    by (rule unsigned_take_bit_eq)
  also have "\<dots> = uint i mod 2 ^ 24"
    by (rule take_bit_eq_mod)
  finally have u: "uint (take_bit 24 i) = uint i mod 2 ^ 24" .
  have "uint i mod 2 ^ 24 < 2 ^ 24"
    by simp
  with u have "uint (take_bit 24 i) < 2 ^ 31"
    by simp
  then have "sint (take_bit 24 i) = uint (take_bit 24 i)"
    by (simp add: sint_uint signed_take_bit_eq_if_positive take_bit_int_eq_self bit_simps)
  with u show ?thesis by simp
qed

lemma NewObjectId_Inr:
  assumes "NewObjectId md5 h st = Inr (oid, st')"
  shows "objectIdCounter st' = objectIdCounter st + 1"
    and "Counter oid = Inr (take_bit 24 (objectIdCounter st'))"
    and "machineId st' \<noteq> None"
    and "length oid = 12"
proof -
  from assms obtain b st1 m where
    b: "PutUint32 (replicate 12 0) (ucast (seconds h)) = Inr b" and
    st1: "(if machineId st = None then initMachineId md5 h st else Inr st) = Inr st1" and
    m: "machineId st1 = Some m" and
    oid: "oid = stringOf (b[4 := m ! 0, 5 := m ! 1, 6 := m ! 2,
        7 := of_int (drop_bit 8 (pid h)), 8 := of_int (pid h),
        9 := ucast (drop_bit 16 (objectIdCounter st1 + 1)),
        10 := ucast (drop_bit 8 (objectIdCounter st1 + 1)),
        11 := ucast (objectIdCounter st1 + 1)])" and
    st': "st' = st1\<lparr>objectIdCounter := objectIdCounter st1 + 1\<rparr>"
    by (auto simp add: NewObjectId_def Let_def split: sum.splits option.splits if_splits)
  have cnt: "objectIdCounter st1 = objectIdCounter st"
    using st1 by (auto simp add: initMachineId_def split: if_splits option.splits)
  have lb: "length b = 12"
    using b by (auto simp add: PutUint32_def split: if_splits)
  show "objectIdCounter st' = objectIdCounter st + 1"
    by (simp add: st' cnt)
  show "machineId st' \<noteq> None"
    by (simp add: st' m)
  show len: "length oid = 12"
    by (simp add: oid length_stringOf lb)
  let ?i = "objectIdCounter st1 + 1"
  have "byteSlice oid 9 12 = Inr [ucast (drop_bit 16 ?i), ucast (drop_bit 8 ?i), ucast ?i]"
    using len by (simp add: byteSlice_def) (simp add: oid map_take_drop_stringOf bytesOf_drop_stringOf drop9_update drop9_update' lb)
  then show "Counter oid = Inr (take_bit 24 (objectIdCounter st'))"
    by (simp add: Counter_def counter_bits st')
qed

text \<open>
  C9. Within one process, when two calls of \<open>NewObjectId()\<close> follow each other with no
  call in between (the second starts in the state that the first leaves) and both return,
  the \<open>Counter()\<close> of the second ObjectId is the \<open>Counter()\<close> of the first plus 1,
  modulo \<open>2^24\<close>.
\<close>

theorem C9_consecutive_counters:
  assumes "NewObjectId md5 h1 st = Inr (id1, st1)"
      and "NewObjectId md5 h2 st1 = Inr (id2, st2)"
  shows "\<exists>c1 c2. Counter id1 = Inr c1 \<and> Counter id2 = Inr c2
           \<and> sint c2 = (sint c1 + 1) mod 2 ^ 24"
proof -
  let ?i = "objectIdCounter st1"
  have c1: "Counter id1 = Inr (take_bit 24 ?i)"
    using NewObjectId_Inr(2) [OF assms(1)] .
  have c2: "Counter id2 = Inr (take_bit 24 (?i + 1))"
    using NewObjectId_Inr(1,2) [OF assms(2)] by simp
  have "uint (?i + 1) = (uint ?i + 1) mod 2 ^ 32"
    by (simp add: uint_word_ariths)
  moreover have "(uint ?i + 1) mod 2 ^ 32 mod 2 ^ 24 = (uint ?i + 1) mod (2 ^ 24 :: int)"
    by (rule mod_mod_cancel) simp
  ultimately have "uint (?i + 1) mod 2 ^ 24 = (uint ?i mod 2 ^ 24 + 1) mod 2 ^ 24"
    by (simp add: mod_add_left_eq)
  then have "sint (take_bit 24 (?i + 1)) = (sint (take_bit 24 ?i) + 1) mod 2 ^ 24"
    by (simp only: sint_take_bit_24)
  with c1 c2 show ?thesis by blast
qed

lemma replicate_12: "replicate 12 x = [x, x, x, x, x, x, x, x, x, x, x, x]"
  by (simp add: numeral_eq_Suc)

text \<open>The theorem at a counter that wraps around: the first ObjectId carries the counter
  \<open>0xFFFFFF\<close>, the second one the counter 0.\<close>

theorem C9_consecutive_counters_witness:
  "NewObjectId (\<lambda>hostname. [0xAB, 0xCD, 0xEF, 0x01])
       \<lparr>seconds = 0x4D7C6D00, hostname = Some ''host'', pid = 0x1092\<rparr>
       \<lparr>objectIdCounter = 0xFFFFFE, machineId = None\<rparr>
     = Inr (stringOf [0x4D, 0x7C, 0x6D, 0x00, 0xAB, 0xCD, 0xEF, 0x10, 0x92, 0xFF, 0xFF, 0xFF],
            \<lparr>objectIdCounter = 0xFFFFFF, machineId = Some [0xAB, 0xCD, 0xEF]\<rparr>)
   \<and> NewObjectId (\<lambda>hostname. [0xAB, 0xCD, 0xEF, 0x01])
       \<lparr>seconds = 0x4D7C6D01, hostname = Some ''host'', pid = 0x1092\<rparr>
       \<lparr>objectIdCounter = 0xFFFFFF, machineId = Some [0xAB, 0xCD, 0xEF]\<rparr>
     = Inr (stringOf [0x4D, 0x7C, 0x6D, 0x01, 0xAB, 0xCD, 0xEF, 0x10, 0x92, 0x00, 0x00, 0x00],
            \<lparr>objectIdCounter = 0x1000000, machineId = Some [0xAB, 0xCD, 0xEF]\<rparr>)
   \<and> (\<exists>c1 c2.
         Counter (stringOf [0x4D, 0x7C, 0x6D, 0x00, 0xAB, 0xCD, 0xEF, 0x10, 0x92, 0xFF, 0xFF, 0xFF])
           = Inr c1
       \<and> Counter (stringOf [0x4D, 0x7C, 0x6D, 0x01, 0xAB, 0xCD, 0xEF, 0x10, 0x92, 0x00, 0x00, 0x00])
           = Inr c2
       \<and> sint c2 = (sint c1 + 1) mod 2 ^ 24)"
proof -
  have a: "NewObjectId (\<lambda>hostname. [0xAB, 0xCD, 0xEF, 0x01])
       \<lparr>seconds = 0x4D7C6D00, hostname = Some ''host'', pid = 0x1092\<rparr>
       \<lparr>objectIdCounter = 0xFFFFFE, machineId = None\<rparr>
     = Inr (stringOf [0x4D, 0x7C, 0x6D, 0x00, 0xAB, 0xCD, 0xEF, 0x10, 0x92, 0xFF, 0xFF, 0xFF],
            \<lparr>objectIdCounter = 0xFFFFFF, machineId = Some [0xAB, 0xCD, 0xEF]\<rparr>)"
    by (simp add: NewObjectId_def PutUint32_def initMachineId_def copy_def replicate_12 Let_def stringOf_def)
  have b: "NewObjectId (\<lambda>hostname. [0xAB, 0xCD, 0xEF, 0x01])
       \<lparr>seconds = 0x4D7C6D01, hostname = Some ''host'', pid = 0x1092\<rparr>
       \<lparr>objectIdCounter = 0xFFFFFF, machineId = Some [0xAB, 0xCD, 0xEF]\<rparr>
     = Inr (stringOf [0x4D, 0x7C, 0x6D, 0x01, 0xAB, 0xCD, 0xEF, 0x10, 0x92, 0x00, 0x00, 0x00],
            \<lparr>objectIdCounter = 0x1000000, machineId = Some [0xAB, 0xCD, 0xEF]\<rparr>)"
    by (simp add: NewObjectId_def PutUint32_def initMachineId_def copy_def replicate_12 Let_def stringOf_def)
  from C9_consecutive_counters [OF a b] a b show ?thesis by blast
qed

section \<open>Properties of the output buffer\<close>

lemma le32_bytes:
  "le32 w = [ucast w, ucast (drop_bit 8 w), ucast (drop_bit 16 w), ucast (drop_bit 24 w)]"
  by (simp add: le32_def upt_rec numeral_eq_Suc)

lemma le64_bytes:
  "le64 w = [ucast w, ucast (drop_bit 8 w), ucast (drop_bit 16 w), ucast (drop_bit 24 w),
     ucast (drop_bit 32 w), ucast (drop_bit 40 w), ucast (drop_bit 48 w), ucast (drop_bit 56 w)]"
  by (simp add: le64_def upt_rec numeral_eq_Suc)

lemma addInt32_le32: "addInt32 out v = out @ le32 v"
  by (simp add: addInt32_def addBytes_def le32_bytes)

lemma addInt64_le64: "addInt64 out v = out @ le64 v"
  by (simp add: addInt64_def addBytes_def le64_bytes)

lemma addElemName_eq: "addElemName out kind name = out @ [kind] @ bytesOf name @ [0]"
  by (simp add: addElemName_def addBytes_def)

lemma ucast_signed_drop_bit:
  "k \<le> 24 \<Longrightarrow> (ucast (signed_drop_bit k (v :: 32 word)) :: byte) = ucast (drop_bit k v)"
  by (rule bit_word_eqI) (auto simp add: bit_simps bit_signed_drop_bit_iff)

lemma setInt32_reserved:
  "setInt32 (out @ [a, b, c, d] @ rest) (length out) w = Inr (out @ le32 w @ rest)"
  by (simp add: setInt32_def le32_bytes ucast_signed_drop_bit list_update_append)

lemma le_bits:
  "ucast (ucast v :: byte) OR push_bit 8 (ucast (ucast (drop_bit 8 v) :: byte))
      OR push_bit 16 (ucast (ucast (drop_bit 16 v) :: byte))
      OR push_bit 24 (ucast (ucast (drop_bit 24 v) :: byte)) = (v :: 32 word)"
proof (rule bit_word_eqI)
  fix n assume "n < LENGTH(32)"
  then show "bit (ucast (ucast v :: byte) OR push_bit 8 (ucast (ucast (drop_bit 8 v) :: byte))
      OR push_bit 16 (ucast (ucast (drop_bit 16 v) :: byte))
      OR push_bit 24 (ucast (ucast (drop_bit 24 v) :: byte)) :: 32 word) n = bit v n"
    by (cases "n < 8"; cases "n < 16"; cases "n < 24"; auto simp add: bit_simps)
qed

lemma nth4:
  "(a # b # c # d # r) ! 0 = a" "(a # b # c # d # r) ! 1 = b"
  "(a # b # c # d # r) ! 2 = c" "(a # b # c # d # r) ! 3 = d"
  by simp_all

lemma readLe32_le32: "readLe32 (le32 w @ rest) = w"
  unfolding readLe32_def le32_bytes append_Cons append_Nil nth4 by (rule le_bits)

lemma ucast_ucast_low: "(ucast (ucast (i :: 64 word) :: 32 word) :: byte) = ucast i"
  by (rule bit_word_eqI) (auto simp add: bit_simps)

lemma ucast_drop_bit_low:
  "k \<le> 24 \<Longrightarrow> (ucast (drop_bit k (ucast (i :: 64 word) :: 32 word)) :: byte) = ucast (drop_bit k i)"
  by (rule bit_word_eqI) (auto simp add: bit_simps)

lemma addBinary_eq:
  "addBinary out subtype v =
     (if subtype = 0x02 then out @ le32 (of_nat (length v + 4)) @ [0x02] @ le32 (of_nat (length v)) @ v
      else out @ le32 (of_nat (length v)) @ [subtype] @ v)"
  by (simp add: addBinary_def addInt32_le32 addBytes_def)

text \<open>
  C7. For every Binary value, \<open>addBinary\<close> writes subtype \<open>0x02\<close> in the legacy form
  \<open>int32(len+4), 0x02, int32(len), bytes\<close> and every other subtype in the form
  \<open>int32(len), subtype, bytes\<close>, both as the payload of an element of kind \<open>0x05\<close>.
\<close>

theorem C7_addBinary: "addBinary out subtype v =
     (if subtype = 0x02 then out @ le32 (of_nat (length v + 4)) @ [0x02] @ le32 (of_nat (length v)) @ v
      else out @ le32 (of_nat (length v)) @ [subtype] @ v)
   \<and> addElem out name (VBinary subtype v) short =
     Inr (out @ [0x05] @ bytesOf name @ [0x00] @
       (if subtype = 0x02 then le32 (of_nat (length v + 4)) @ [0x02] @ le32 (of_nat (length v)) @ v
        else le32 (of_nat (length v)) @ [subtype] @ v))"
  by (simp add: addBinary_eq addElemName_eq)

theorem C7_addBinary_witness:
  "addBinary [] 0x02 [0xAA, 0xBB] = [6, 0, 0, 0, 2, 2, 0, 0, 0, 0xAA, 0xBB]
   \<and> addBinary [] 0x80 [0xAA, 0xBB] = [2, 0, 0, 0, 0x80, 0xAA, 0xBB]"
  using C7_addBinary [of "[]" "0x02" "[0xAA, 0xBB]" "[]" False] C7_addBinary [of "[]" "0x80" "[0xAA, 0xBB]" "[]" False]
  by (simp add: le32_bytes)

text \<open>
  C5. For a value of kind \<open>Int\<close> (Go's plain \<open>int\<close>) the encoder emits kind \<open>0x10\<close> and the
  low 32 bits of the value, the first four bytes of its 64-bit little-endian form, for
  every value and either setting of the short flag, and raises no error.
\<close>

theorem C5_plain_int: "addElem out name (VInt TInt i) short =
    Inr (out @ [0x10] @ bytesOf name @ [0x00] @ take 4 (le64 i))"
  by (simp add: addElemName_eq addInt32_le32 le32_bytes le64_bytes ucast_drop_bit_low ucast_ucast_low)

text \<open>The theorem at \<open>2^32 + 5\<close>, outside the range of \<open>int32\<close>: the element carries 5.\<close>

theorem C5_plain_int_witness:
  "addElem [] ''n'' (VInt TInt (2 ^ 32 + 5)) False = Inr [0x10, 0x6E, 0x00, 0x05, 0x00, 0x00, 0x00]"
  using C5_plain_int [of "[]" "''n''" "2 ^ 32 + 5" False]
  by (simp add: le64_bytes bytesOf_def)


lemma of_char_char_of_nat: "(of_char (char_of (n :: nat)) :: byte) = of_nat (n mod 256)"
proof -
  have "(of_char (char_of n) :: byte) = of_nat (of_char (char_of n))"
    by (simp only: of_nat_of_char)
  then show ?thesis by simp
qed

lemmas enc_defs = Marshal_def reserveInt32_def addBytes_def addElemName_def bytesOf_def
  addInt32_def addInt64_def addCStr_def addStr_def addBinary_def setInt32_def
  getStructFields_def ToLower_def handleErr_def Let_def of_char_char_of_nat

section \<open>Properties of the encoder on given values\<close>

text \<open>
  C3. \<open>Marshal\<close> of a document with the single key \<open>"x"\<close> bound to the boolean \<open>true\<close>
  returns exactly the nine bytes \<open>09 00 00 00 08 78 00 01 00\<close>, whether the document is a
  map of interfaces (\<open>bson.M\<close>), a map of booleans, a \<open>bson.D\<close> or a struct with the
  field \<open>X\<close>.
\<close>

theorem C3_marshal_x_true:
  "Marshal (VMap [(''x'', VInterface (VBool True))]) = Returned [0x09, 0x00, 0x00, 0x00, 0x08, 0x78, 0x00, 0x01, 0x00]
   \<and> Marshal (VMap [(''x'', VBool True)]) = Returned [0x09, 0x00, 0x00, 0x00, 0x08, 0x78, 0x00, 0x01, 0x00]
   \<and> Marshal (VD [(''x'', VBool True)]) = Returned [0x09, 0x00, 0x00, 0x00, 0x08, 0x78, 0x00, 0x01, 0x00]
   \<and> Marshal (VStruct [(StructField ''X'' [] [], VBool True)]) = Returned [0x09, 0x00, 0x00, 0x00, 0x08, 0x78, 0x00, 0x01, 0x00]"
  by (simp add: enc_defs)

text \<open>The example of the specification: \<open>{Name: "Ada", Age: 0}\<close> with the tags \<open>name\<close> and
  \<open>age/c\<close> marshals to a document that holds the element \<open>name\<close> only.\<close>

lemma marshal_ada: "Marshal (VStruct [(StructField ''Name'' [] ''name'', VString TString ''Ada''),
     (StructField ''Age'' [] ''age/c'', VInt TInt 0)])
   = Returned ([0x13, 0, 0, 0] @ [0x02] @ bytesOf ''name'' @ [0] @ [4, 0, 0, 0] @ bytesOf ''Ada'' @ [0] @ [0])"
  by (simp add: enc_defs)

text \<open>
  C6 at a failing input. The struct declares the unexported field \<open>a int\<close> before the
  field \<open>B int "b/c"\<close>, and holds \<open>a = 0\<close> and \<open>B = 7\<close>. \<open>addStruct\<close> reads \<open>v.Field(0)\<close>, the
  field \<open>a\<close>, for the first entry of the schema list, which describes \<open>B\<close>: the
  conditional field \<open>B\<close> is not zero and is omitted all the same.
\<close>

theorem C6_failing_input:
  "\<not> isZero (VInt TInt 7)
   \<and> Marshal (VStruct [(StructField ''a'' ''main'' [], VInt TInt 0),
         (StructField ''B'' [] ''b/c'', VInt TInt 7)]) = Returned [0x05, 0, 0, 0, 0]"
  by (simp add: enc_defs)

text \<open>The zero test is false on every float, struct and array.\<close>

lemma isZero_float_struct:
  "isZero (VFloat t bits) = False" "isZero (VStruct fs) = False" "isZero (VArray vs) = False"
  "isZero (VByteArray bs) = False" "isZero (VBinary k d) = False" "isZero (VRegEx p opts) = False"
  "isZero (VJS c scope) = False" "isZero (VRaw k d) = False" "isZero VUndefined = False"
  by simp_all

text \<open>
  C10 at a failing input. The zero test is false on the float, and in the same way as
  above the conditional field \<open>F float64 "f/c"\<close> is omitted, whatever its value, when the
  unexported field \<open>a = 0\<close> is declared before it.
\<close>

theorem C10_failing_input:
  "\<not> isZero (VFloat TFloat64 bits)
   \<and> Marshal (VStruct [(StructField ''a'' ''main'' [], VInt TInt 0),
         (StructField ''F'' [] ''f/c'', VFloat TFloat64 bits)]) = Returned [0x05, 0, 0, 0, 0]"
  by (simp add: enc_defs)

text \<open>Without a field before it, the conditional field \<open>F = 0.0\<close> is emitted.\<close>

lemma marshal_conditional_float_zero: "Marshal (VStruct [(StructField ''F'' [] ''f/c'', VFloat TFloat64 0)]) 
   = Returned [16, 0, 0, 0, 1, 102, 0, 0, 0, 0, 0, 0, 0, 0, 0, 0]"
  by (simp add: enc_defs)

text \<open>
  C4 at a failing input. The field \<open>Size int64 "size/s"\<close> holds 42, which lies in
  \<open>[MinInt32, MaxInt32]\<close>, and the unexported field \<open>a int64\<close> is declared before it. The
  only entry of \<open>fields.List\<close> is that of \<open>Size\<close>, at index 0, and \<open>addStruct\<close> reads
  \<open>v.Field(0)\<close>, the field \<open>a\<close>, for it. With \<open>a = 2^33\<close> \<open>addElem\<close> is called on the
  value of \<open>a\<close> and \<open>Marshal\<close> fails; with \<open>a = 0\<close> and the tag \<open>"size/cs"\<close> the zero test
  runs on \<open>a\<close> and the field is omitted. In neither case is an element of kind \<open>0x10\<close>
  emitted for \<open>Size\<close>.
\<close>

theorem C4_failing_input:
  "fitsInt32 42
   \<and> Marshal (VStruct [(StructField ''a'' ''main'' [], VInt TInt64 (2 ^ 33)),
         (StructField ''Size'' [] ''size/s'', VInt TInt64 42)]) = Failed UnexportedField
   \<and> Marshal (VStruct [(StructField ''a'' ''main'' [], VInt TInt64 0),
         (StructField ''Size'' [] ''size/cs'', VInt TInt64 42)]) = Returned [0x05, 0, 0, 0, 0]"
  by (simp add: enc_defs fitsInt32_def MinInt32_def MaxInt32_def)

text \<open>
  Where \<open>addElem\<close> is called on the field itself, as for a struct whose only field is
  \<open>Size int64 "size/s"\<close>, an \<open>int64\<close> encoded with the short flag gets kind \<open>0x10\<close> and
  four bytes when its value lies in \<open>[MinInt32, MaxInt32]\<close>, and kind \<open>0x12\<close> and eight
  bytes otherwise.
\<close>

lemma addElem_short_int64:
  "addElem out name (VInt TInt64 i) True =
     Inr (out @ [if fitsInt32 i then 0x10 else 0x12] @ bytesOf name @ [0x00]
          @ (if fitsInt32 i then take 4 (le64 i) else le64 i))
   \<and> Marshal (VStruct [(StructField ''Size'' [] ''size/s'', VInt TInt64 i)]) =
     Returned (if fitsInt32 i
               then [15, 0, 0, 0] @ [0x10] @ bytesOf ''size'' @ [0x00] @ take 4 (le64 i) @ [0x00]
               else [19, 0, 0, 0] @ [0x12] @ bytesOf ''size'' @ [0x00] @ le64 i @ [0x00])"
  by (simp add: enc_defs fitsInt32_def le64_bytes ucast_drop_bit_low ucast_ucast_low)

lemma marshal_size_short:
  "Marshal (VStruct [(StructField ''Size'' [] ''size/s'', VInt TInt64 42)]) =
     Returned [15, 0, 0, 0, 0x10, 0x73, 0x69, 0x7A, 0x65, 0x00, 42, 0, 0, 0, 0x00]
   \<and> Marshal (VStruct [(StructField ''Size'' [] ''size/s'', VInt TInt64 (2 ^ 33))]) =
     Returned [19, 0, 0, 0, 0x12, 0x73, 0x69, 0x7A, 0x65, 0x00, 0, 0, 0, 0, 2, 0, 0, 0, 0x00]"
  using addElem_short_int64 [of "[]" "[]" 42] addElem_short_int64 [of "[]" "[]" "2 ^ 33"]
  by (simp add: fitsInt32_def MinInt32_def MaxInt32_def le64_bytes bytesOf_def)

section \<open>Every encoder function only appends to the buffer\<close>

text \<open>The loop at the head of \<open>addDoc\<close> does not change what \<open>addDoc\<close> returns, and never
  leaves a \<open>Getter\<close> or a pointer.\<close>

lemma addDoc_indirect: "addDoc out v = addDoc out (indirect v)"
  by (induction v rule: indirect.induct) simp_all

lemma indirect_neq:
  "indirect v \<noteq> VGetter s r" "indirect v \<noteq> VPtr x" "indirect v \<noteq> VInterface (VGetter s r)"
  by (induction v rule: indirect.induct) simp_all

lemma indirect_idem: "indirect (indirect v) = indirect v"
  by (induction v rule: indirect.induct) simp_all

lemma addDoc_VInterface:
  "indirect (VInterface x) = VInterface x \<Longrightarrow> addDoc out (VInterface x) = Inl CantMarshalDoc"
  by (cases x) (simp_all add: reserveInt32_def indirect_neq)

text \<open>\<open>setInt32\<close> at a position behind a prefix of the buffer keeps the prefix and the
  length.\<close>

lemma setInt32_append:
  assumes "setInt32 (out @ d) pos w = Inr ys" and "length out \<le> pos"
  shows "\<exists>d'. ys = out @ d' \<and> length d' = length d"
proof -
  from assms(1) have ys: "ys = (out @ d)[pos + 0 := ucast w, pos + 1 := ucast (signed_drop_bit 8 w),
      pos + 2 := ucast (signed_drop_bit 16 w), pos + 3 := ucast (signed_drop_bit 24 w)]"
    by (auto simp add: setInt32_def split: if_splits)
  from assms(2) obtain k where k: "pos = length out + k"
    using le_Suc_ex by blast
  show ?thesis
    unfolding ys k by (simp add: list_update_append add.assoc)
qed

lemma documentKind_simps [simp]:
  "\<not> documentKind (floatKind ft)" "\<not> documentKind (uintKind ut)"
  "\<not> documentKind (intKind it)" "\<not> documentKind (otherKind ot)"
  by (cases ft; cases ut; cases it; cases ot; simp add: documentKind_def)+

lemma kind_case_other:
  "\<not> documentKind k \<Longrightarrow>
    (case k of KMap \<Rightarrow> a | KStruct \<Rightarrow> b | KArray \<Rightarrow> c | KSlice \<Rightarrow> d | _ \<Rightarrow> e) = e"
  by (cases k) (simp_all add: documentKind_def)

text \<open>The three ways in which the encoder composes its steps: the tail of \<open>addDoc\<close>
  (terminator, then the length written back), the tail of a \<open>JS\<close> element with scope (the
  length written back), and one step of a loop.\<close>

lemma wrapE:
  assumes "(case body of Inl x \<Rightarrow> Inl x
            | Inr out2 \<Rightarrow> let out3 = addBytes out2 [0] in setInt32 out3 (length out) (W out3)) = Inr out'"
      and "\<And>out2. body = Inr out2 \<Longrightarrow> \<exists>d. out2 = out @ d"
  shows "\<exists>d. out' = out @ d"
proof -
  from assms(1) obtain out2 where b: "body = Inr out2"
    and s: "setInt32 (out2 @ [0]) (length out) (W (out2 @ [0])) = Inr out'"
    by (auto simp add: addBytes_def Let_def split: sum.splits)
  from assms(2) [OF b] obtain d where "out2 = out @ d" ..
  with s have "setInt32 (out @ (d @ [0])) (length out) (W (out2 @ [0])) = Inr out'"
    by simp
  from setInt32_append [OF this] show ?thesis by blast
qed

lemma patchE:
  assumes "(case body of Inl x \<Rightarrow> Inl x | Inr out2 \<Rightarrow> setInt32 out2 pos (W out2)) = Inr out'"
      and "\<And>out2. body = Inr out2 \<Longrightarrow> \<exists>d. out2 = out @ d"
      and "length out \<le> pos"
  shows "\<exists>d. out' = out @ d"
proof -
  from assms(1) obtain out2 where b: "body = Inr out2"
    and s: "setInt32 out2 pos (W out2) = Inr out'"
    by (auto split: sum.splits)
  from assms(2) [OF b] obtain d where "out2 = out @ d" ..
  with s have "setInt32 (out @ d) pos (W out2) = Inr out'"
    by simp
  from setInt32_append [OF this assms(3)] show ?thesis by blast
qed

lemma seqE:
  assumes "(case first of Inl x \<Rightarrow> Inl x | Inr out2 \<Rightarrow> rest out2) = Inr out'"
      and "\<And>out2. first = Inr out2 \<Longrightarrow> \<exists>d. out2 = out @ d"
      and "\<And>out2. first = Inr out2 \<Longrightarrow> rest out2 = Inr out' \<Longrightarrow> \<exists>d. out' = out2 @ d"
  shows "\<exists>d. out' = out @ d"
proof -
  from assms(1) obtain out2 where f: "first = Inr out2" and r: "rest out2 = Inr out'"
    by (auto split: sum.splits)
  from assms(2) [OF f] obtain d1 where "out2 = out @ d1" ..
  moreover from assms(3) [OF f r] obtain d2 where "out' = out2 @ d2" ..
  ultimately have "out' = out @ (d1 @ d2)" by simp
  then show ?thesis ..
qed

text \<open>By induction on the recursion of the encoder: whatever a function returns extends the
  buffer it was given.\<close>

lemma appends:
  "addDoc out v = Inr out' \<Longrightarrow> \<exists>d. out' = out @ d"
  "addMap out v = Inr out' \<Longrightarrow> \<exists>d. out' = out @ d"
  "addMapLoop out kvs = Inr out' \<Longrightarrow> \<exists>d. out' = out @ d"
  "addStruct out v = Inr out' \<Longrightarrow> \<exists>d. out' = out @ d"
  "addStructLoop out infos fs = Inr out' \<Longrightarrow> \<exists>d. out' = out @ d"
  "addSlice out v = Inr out' \<Longrightarrow> \<exists>d. out' = out @ d"
  "addSliceD out kvs = Inr out' \<Longrightarrow> \<exists>d. out' = out @ d"
  "addSliceLoop out i vs = Inr out' \<Longrightarrow> \<exists>d. out' = out @ d"
  "addElem out name v short = Inr out' \<Longrightarrow> \<exists>d. out' = out @ d"
  apply (induction out v and out v and out kvs and out v and out infos fs and out v and out kvs
    and out i vs and out name v short
    arbitrary: out' and out' and out' and out' and out' and out' and out' and out' and out'
    rule: addDoc_addMap_addMapLoop_addStruct_addStructLoop_addSlice_addSliceD_addSliceLoop_addElem.induct)
  apply (simp_all add: reserveInt32_def addBytes_def Let_def kind_case_other
      addElemName_eq addInt32_le32 addInt64_le64 addStr_def addCStr_def addBinary_eq)
  subgoal by (auto split: if_splits simp add: addBytes_def)
  subgoal by (erule wrapE) blast
  subgoal by (erule wrapE) blast
  subgoal by (erule wrapE) blast
  subgoal by (erule wrapE) blast
  subgoal by (erule wrapE) blast
  subgoal by (erule wrapE) blast
  subgoal by (erule wrapE) blast
  subgoal by (erule wrapE) blast
  subgoal by (erule wrapE) blast
  subgoal by (erule wrapE) blast
  subgoal by (erule wrapE) blast
  subgoal by (erule seqE) blast+
  subgoal by (auto split: sum.splits)
  subgoal by (auto split: if_splits elim!: seqE)
  subgoal by (erule seqE) blast+
  subgoal by (erule seqE) (blast, force)
  subgoal by (auto split: stringType.splits if_splits simp add: addElemName_eq addStr_def addCStr_def addInt32_le32 addBytes_def)
  subgoal by (auto split: if_splits simp add: addElemName_eq addInt32_le32 addInt64_le64)
  subgoal by (auto split: intType.splits if_splits simp add: addElemName_eq addInt32_le32 addInt64_le64)
  subgoal by (auto split: if_splits simp add: addBytes_def)
  subgoal by blast
  subgoal by blast
  subgoal by (simp add: reserveInt32_def addBytes_def addElemName_eq split: if_splits) blast+
  subgoal by blast
  subgoal
    apply (simp add: reserveInt32_def addBytes_def addElemName_eq addStr_def addCStr_def addInt32_le32 split: if_splits)
     apply blast
    apply (erule patchE)
     apply blast
    apply simp
    done
  subgoal by blast
  done

section \<open>The shape of a document\<close>

text \<open>\<open>addDoc\<close> on a value that its loop leaves unchanged and that is neither the zero Value
  nor a \<open>Raw\<close>: the four bytes reserved, the \<open>switch\<close> on the kind, the terminator and the
  length.\<close>

lemma addDoc_default:
  assumes "indirect v = v" and "v \<noteq> VInvalid" and "\<not> isRaw v"
  shows "addDoc out v =
    (case (case Kind v of
             KMap \<Rightarrow> addMap (out @ [0, 0, 0, 0]) v
           | KStruct \<Rightarrow> addStruct (out @ [0, 0, 0, 0]) v
           | KArray \<Rightarrow> addSlice (out @ [0, 0, 0, 0]) v
           | KSlice \<Rightarrow> addSlice (out @ [0, 0, 0, 0]) v
           | _ \<Rightarrow> Inl CantMarshalDoc) of
       Inl e \<Rightarrow> Inl e
     | Inr out2 \<Rightarrow> setInt32 (out2 @ [0]) (length out)
         (of_int (int (length (out2 @ [0])) - int (length out))))"
  using assms
  by (cases v) (auto simp add: reserveInt32_def addBytes_def Let_def indirect_neq kind_case_other
      addDoc_VInterface split: sum.splits)


lemma sint_of_nat_32: "n < 2 ^ 31 \<Longrightarrow> sint (word_of_nat n :: 32 word) = int n"
proof -
  assume "n < 2 ^ 31"
  then have "int n < 2 ^ 31"
    by (metis of_nat_less_iff of_nat_numeral of_nat_power)
  then have "signed_take_bit 31 (int n) = int n"
    by (intro signed_take_bit_int_eq_self) simp_all
  then show ?thesis
    by (simp add: signed_of_nat)
qed

lemma addDoc_document:
  assumes "addDoc out v = Inr out'" and "\<not> isRaw (indirect v)"
  shows "\<exists>body. out' = out @ le32 (of_nat (length body + 5)) @ body @ [0]"
proof -
  let ?v = "indirect v"
  let ?out1 = "out @ [0, 0, 0, 0]"
  let ?inner = "case Kind ?v of
             KMap \<Rightarrow> addMap ?out1 ?v
           | KStruct \<Rightarrow> addStruct ?out1 ?v
           | KArray \<Rightarrow> addSlice ?out1 ?v
           | KSlice \<Rightarrow> addSlice ?out1 ?v
           | _ \<Rightarrow> Inl CantMarshalDoc"
  have r: "addDoc out ?v = Inr out'"
    using assms(1) addDoc_indirect [of out v] by simp
  then have nz: "?v \<noteq> VInvalid"
    by auto
  have idem: "indirect ?v = ?v"
    by (rule indirect_idem)
  from r addDoc_default [OF idem nz assms(2), of out]
  obtain out2 where inner: "?inner = Inr out2"
    and set: "setInt32 (out2 @ [0]) (length out)
         (of_int (int (length (out2 @ [0])) - int (length out))) = Inr out'"
    by (auto split: sum.splits)
  have "\<exists>d. out2 = ?out1 @ d"
  proof (cases "Kind ?v")
    case KMap
    with inner have "addMap ?out1 ?v = Inr out2" by (simp del: addMap.simps)
    then show ?thesis by (rule appends(2))
  next
    case KStruct
    with inner have "addStruct ?out1 ?v = Inr out2" by (simp del: addStruct.simps)
    then show ?thesis by (rule appends(4))
  next
    case KArray
    with inner have "addSlice ?out1 ?v = Inr out2" by (simp del: addSlice.simps)
    then show ?thesis by (rule appends(6))
  next
    case KSlice
    with inner have "addSlice ?out1 ?v = Inr out2" by (simp del: addSlice.simps)
    then show ?thesis by (rule appends(6))
  qed (use inner in simp_all)
  then obtain body where out2: "out2 = out @ [0, 0, 0, 0] @ body"
    by auto
  have w: "(of_int (int (length (out2 @ [0])) - int (length out)) :: 32 word)
      = of_nat (length body + 5)"
    by (simp add: out2)
  have "setInt32 (out @ [0, 0, 0, 0] @ (body @ [0])) (length out) (of_nat (length body + 5))
      = Inr (out @ le32 (of_nat (length body + 5)) @ (body @ [0]))"
    by (rule setInt32_reserved)
  with set w out2 have "out' = out @ le32 (of_nat (length body + 5)) @ body @ [0]"
    by (simp add: add.commute)
  then show ?thesis ..
qed


text \<open>
  C2 (amended). For every call of \<open>addDoc\<close> that returns, on any buffer (the empty buffer
  of \<open>Marshal\<close> for the top-level document, the buffer built so far for an embedded one),
  and for every value that is not a \<open>Raw\<close> after Getter replacement and pointer unwrapping:
  the bytes \<open>d\<close> appended to the buffer are a document of at least five bytes whose first
  four bytes are the little-endian \<open>int32\<close> of the length of \<open>d\<close>, which reads back as
  that length when \<open>d\<close> is shorter than \<open>2^31\<close> bytes, and whose last byte is \<open>0x00\<close>.
\<close>

theorem C2_amended:
  assumes "addDoc out v = Inr out'" and "\<not> isRaw (indirect v)"
  shows "\<exists>d. out' = out @ d
           \<and> 5 \<le> length d
           \<and> take 4 d = le32 (of_nat (length d))
           \<and> last d = 0x00
           \<and> (length d < 2 ^ 31 \<longrightarrow> sint (readLe32 d) = int (length d))
           \<and> (out = [] \<longrightarrow> Marshal v = Returned d)"
proof -
  from addDoc_document [OF assms] obtain body
    where out': "out' = out @ le32 (of_nat (length body + 5)) @ body @ [0]" ..
  let ?d = "le32 (of_nat (length body + 5)) @ body @ [0]"
  have len: "length ?d = length body + 5"
    by (simp add: le32_bytes)
  have "take 4 ?d = le32 (of_nat (length ?d))"
    unfolding len by (simp add: le32_bytes)
  moreover have "last ?d = 0x00"
    by simp
  moreover have "length ?d < 2 ^ 31 \<longrightarrow> sint (readLe32 ?d) = int (length ?d)"
  proof
    assume "length ?d < 2 ^ 31"
    then have "length body + 5 < 2 ^ 31"
      by (simp only: len)
    then have "sint (of_nat (length body + 5) :: 32 word) = int (length body + 5)"
      by (rule sint_of_nat_32)
    moreover have "readLe32 ?d = of_nat (length body + 5)"
      by (rule readLe32_le32)
    ultimately show "sint (readLe32 ?d) = int (length ?d)"
      by (simp only: len)
  qed
  moreover have "out = [] \<longrightarrow> Marshal v = Returned ?d"
    using assms(1) out' by (auto simp add: Marshal_def)
  moreover have "5 \<le> length ?d"
    unfolding len by simp
  ultimately show ?thesis
    using out' by blast
qed

text \<open>The theorem at the document \<open>{"x": true}\<close>, a \<open>bson.D\<close>, appended to a buffer that
  holds one byte.\<close>

theorem C2_amended_witness:
  "addDoc [0xAA] (VD [(''x'', VBool True)]) = Inr [0xAA, 9, 0, 0, 0, 8, 0x78, 0, 1, 0]
   \<and> \<not> isRaw (indirect (VD [(''x'', VBool True)]))
   \<and> take 4 [9, 0, 0, 0, 8, 0x78, 0, 1, 0] = le32 9
   \<and> last [9, 0, 0, 0, 8, 0x78, 0, 1, 0 :: byte] = 0x00
   \<and> sint (readLe32 [9, 0, 0, 0, 8, 0x78, 0, 1, 0]) = 9"
proof -
  have a: "addDoc [0xAA] (VD [(''x'', VBool True)]) = Inr [0xAA, 9, 0, 0, 0, 8, 0x78, 0, 1, 0]"
    by (simp add: enc_defs)
  have b: "\<not> isRaw (indirect (VD [(''x'', VBool True)]))"
    by simp
  from C2_amended [OF a b] a b show ?thesis
    by auto
qed

text \<open>C2 as stated fails on a \<open>Raw\<close> of kind \<open>0x03\<close>: \<open>addDoc\<close> emits its data unchanged as
  the document, here three bytes with no length and no terminator.\<close>

theorem C2_counterexample:
  "Marshal (VRaw 0x03 [1, 2, 3]) = Returned [1, 2, 3]
   \<and> take 4 [1, 2, 3 :: byte] \<noteq> le32 (of_nat (length [1, 2, 3 :: byte]))
   \<and> last [1, 2, 3 :: byte] \<noteq> 0x00"
  by (simp add: enc_defs le32_bytes)

section \<open>The values that Marshal accepts\<close>

text \<open>The names that \<open>addSlice\<close> gives to the elements of a slice or array are their
  indices in decimal; the cache of \<open>itoa\<close> holds the same strings.\<close>

lemma itoa_Itoa: "itoa i = Itoa i"
  by (simp add: itoa_def itoaCache_def del: Itoa.simps)

lemma Itoa_examples:
  "Itoa 0 = ''0'' \<and> Itoa 1 = ''1'' \<and> Itoa 9 = ''9'' \<and> Itoa 10 = ''10'' \<and> Itoa 42 = ''42''
   \<and> itoa 31 = ''31'' \<and> itoa 120 = ''120''"
  by (simp add: itoa_Itoa del: Itoa.simps) code_simp






end
